theory Spec2Isabelle
  imports Main "HOL-Library.AList"
begin

section \<open>The user registry of main.go\<close>

text \<open>
  The program is one HTTP handler over an in-memory map from identifiers to users.
  The model is sequential: a handler takes the store and the response writer and
  returns both, updated. The two locks of the source delimit critical sections and
  have no sequential effect; where a claim is about the gap between two critical
  sections (\<open>Delete\<close>), the two sections read two stores.
\<close>

subsection \<open>Data\<close>

text \<open>\<^verbatim>\<open>type user struct { ID string; Name string }\<close>\<close>

record user =
  ID :: string
  Name :: string

text \<open>
  \<^verbatim>\<open>m map[string]user\<close>: an association list, read with \<open>map_of\<close>, written with
  \<open>AList.update\<close> (an existing key keeps its place, a new one is appended) and
  \<open>AList.delete\<close>. The order of the list stands for the iteration order of the Go map,
  which the language leaves open; nothing below depends on it.
\<close>

type_synonym store = "(string \<times> user) list"

text \<open>
  The request as the handler reads it: \<^verbatim>\<open>r.Method\<close>, \<^verbatim>\<open>r.URL.Path\<close> and the bytes of
  \<^verbatim>\<open>r.Body\<close>.
\<close>

record Request =
  Method :: string
  Path :: string
  Body :: string

text \<open>
  The \<^verbatim>\<open>http.ResponseWriter\<close>: the header map, the status code given to
  \<^verbatim>\<open>WriteHeader\<close> (0 before the call) and the bytes given to \<^verbatim>\<open>Write\<close>.
\<close>

record ResponseWriter =
  Header :: "(string \<times> string) list"
  Status :: nat
  Bytes :: string

definition new_writer :: ResponseWriter where
  "new_writer = \<lparr>Header = [], Status = 0, Bytes = []\<rparr>"

definition Header_Set :: "string \<Rightarrow> string \<Rightarrow> ResponseWriter \<Rightarrow> ResponseWriter" where
  "Header_Set k v w = w\<lparr>Header := AList.update k v (Header w)\<rparr>"

definition WriteHeader :: "nat \<Rightarrow> ResponseWriter \<Rightarrow> ResponseWriter" where
  "WriteHeader c w = w\<lparr>Status := c\<rparr>"

definition Write :: "string \<Rightarrow> ResponseWriter \<Rightarrow> ResponseWriter" where
  "Write bs w = w\<lparr>Bytes := Bytes w @ bs\<rparr>"

text \<open>
  The package \<^verbatim>\<open>encoding/json\<close> is not part of the repository. The handlers take its
  three uses as parameters: \<open>Decode\<close> is \<^verbatim>\<open>json.NewDecoder(r.Body).Decode(&u)\<close> on a fresh
  \<^verbatim>\<open>user{}\<close> (\<open>None\<close> when it returns an error), \<open>Marshal_user\<close> and \<open>Marshal_users\<close>
  are \<^verbatim>\<open>json.Marshal\<close> on a \<^verbatim>\<open>user\<close> and on a \<^verbatim>\<open>[]user\<close> (\<open>None\<close> when it
  returns an error).
\<close>

record json =
  Decode :: "string \<Rightarrow> user option"
  Marshal_user :: "user \<Rightarrow> string option"
  Marshal_users :: "user list \<Rightarrow> string option"

subsection \<open>The path patterns\<close>

text \<open>\<open>after_prefix p s\<close> is what follows \<open>p\<close> in \<open>s\<close>, when \<open>s\<close> starts with \<open>p\<close>.\<close>

fun after_prefix :: "string \<Rightarrow> string \<Rightarrow> string option" where
  "after_prefix [] s = Some s"
| "after_prefix (p # ps) [] = None"
| "after_prefix (p # ps) (c # cs) = (if p = c then after_prefix ps cs else None)"

text \<open>\<^verbatim>\<open>\d\<close>: in Go's syntax an ASCII digit.\<close>

definition digit :: "char \<Rightarrow> bool" where
  "digit c = (c \<in> set ''0123456789'')"

text \<open>
  \<^verbatim>\<open>listUsersRe = regexp.MustCompile(`^\/users[\/]*$`)\<close>, and \<^verbatim>\<open>createUserRe\<close> with the
  same pattern: \<^verbatim>\<open>/users\<close> and then slashes only, up to the end of the text.
\<close>

definition listUsersRe_MatchString :: "string \<Rightarrow> bool" where
  "listUsersRe_MatchString p =
     (case after_prefix ''/users'' p of
        None \<Rightarrow> False
      | Some rest \<Rightarrow> list_all (\<lambda>c. c = CHR ''/'') rest)"

definition createUserRe_MatchString :: "string \<Rightarrow> bool" where
  "createUserRe_MatchString p =
     (case after_prefix ''/users'' p of
        None \<Rightarrow> False
      | Some rest \<Rightarrow> list_all (\<lambda>c. c = CHR ''/'') rest)"

text \<open>
  \<^verbatim>\<open>getUserRe = regexp.MustCompile(`^\/users\/(\d+)*$`)\<close>, and \<^verbatim>\<open>deleteUserRe\<close> with the
  same pattern: \<^verbatim>\<open>/users/\<close> and then digits only, none included, up to the end of the
  text.
\<close>

definition getUserRe_MatchString :: "string \<Rightarrow> bool" where
  "getUserRe_MatchString p =
     (case after_prefix ''/users/'' p of
        None \<Rightarrow> False
      | Some rest \<Rightarrow> list_all digit rest)"

definition deleteUserRe_MatchString :: "string \<Rightarrow> bool" where
  "deleteUserRe_MatchString p =
     (case after_prefix ''/users/'' p of
        None \<Rightarrow> False
      | Some rest \<Rightarrow> list_all digit rest)"

text \<open>
  \<^verbatim>\<open>getUserRe.FindStringSubmatch\<close>: \<^verbatim>\<open>nil\<close> when the text does not match, else the
  whole match followed by one string for the group. The group repeats a greedy
  \<^verbatim>\<open>\d+\<close>, so it holds all the digits; when there is no digit the group takes no part
  in the match and its string is empty. The slice of a match has two elements in both
  cases.
\<close>

definition getUserRe_FindStringSubmatch :: "string \<Rightarrow> string list" where
  "getUserRe_FindStringSubmatch p =
     (case after_prefix ''/users/'' p of
        None \<Rightarrow> []
      | Some rest \<Rightarrow> if list_all digit rest then [p, rest] else [])"

subsection \<open>The error responses\<close>

definition notFound :: "ResponseWriter \<Rightarrow> ResponseWriter" where
  \<open>notFound w = Write ''{"error": "not found"}'' (WriteHeader 404 w)\<close>

definition badRequest :: "ResponseWriter \<Rightarrow> ResponseWriter" where
  \<open>badRequest w = Write ''{"error": "bad request"}'' (WriteHeader 400 w)\<close>

definition internalServerError :: "ResponseWriter \<Rightarrow> ResponseWriter" where
  \<open>internalServerError w = Write ''{"error": "internal server error"}'' (WriteHeader 500 w)\<close>

subsection \<open>The handlers\<close>

text \<open>
  The loop of \<open>List\<close>:
  \<^verbatim>\<open>for _, u := range h.store.m { users = append(users, u) }\<close>
\<close>

fun range_append :: "user list \<Rightarrow> store \<Rightarrow> user list" where
  "range_append users [] = users"
| "range_append users ((k, u) # m) = range_append (users @ [u]) m"

definition List :: "json \<Rightarrow> store \<Rightarrow> ResponseWriter \<Rightarrow> Request \<Rightarrow> store \<times> ResponseWriter" where
  "List J s w r =
     (let users = range_append [] s in
      case Marshal_users J users of
        None \<Rightarrow> (s, internalServerError w)
      | Some jsonBytes \<Rightarrow> (s, Write jsonBytes (WriteHeader 200 w)))"

definition Get :: "json \<Rightarrow> store \<Rightarrow> ResponseWriter \<Rightarrow> Request \<Rightarrow> store \<times> ResponseWriter" where
  "Get J s w r =
     (let matches = getUserRe_FindStringSubmatch (Path r) in
      if length matches < 2 then (s, notFound w)
      else
        case map_of s (matches ! 1) of
          None \<Rightarrow> (s, notFound w)
        | Some user \<Rightarrow>
            (case Marshal_user J user of
               None \<Rightarrow> (s, internalServerError w)
             | Some jsonBytes \<Rightarrow> (s, Write jsonBytes (WriteHeader 200 w))))"

text \<open>The store is written before the record is marshalled.\<close>

definition Create :: "json \<Rightarrow> store \<Rightarrow> ResponseWriter \<Rightarrow> Request \<Rightarrow> store \<times> ResponseWriter" where
  "Create J s w r =
     (case Decode J (Body r) of
        None \<Rightarrow> (s, badRequest w)
      | Some u \<Rightarrow>
          (let s' = AList.update (ID u) u s in
           case Marshal_user J u of
             None \<Rightarrow> (s', internalServerError w)
           | Some jsonBytes \<Rightarrow> (s', Write jsonBytes (WriteHeader 200 w))))"

text \<open>
  \<open>Delete\<close> looks the record up in one critical section and removes it in a second
  one. \<open>Delete_sections\<close> is the handler with the store as each section finds it:
  \<open>s1\<close> at the lookup, \<open>s2\<close> at the removal, which differ when another request has
  written in between. \<open>Delete\<close> is the handler running alone.
\<close>

definition Delete_sections ::
  "json \<Rightarrow> store \<Rightarrow> store \<Rightarrow> ResponseWriter \<Rightarrow> Request \<Rightarrow> store \<times> ResponseWriter" where
  "Delete_sections J s1 s2 w r =
     (let matches = getUserRe_FindStringSubmatch (Path r) in
      if length matches < 2 then (s2, notFound w)
      else
        case map_of s1 (matches ! 1) of
          None \<Rightarrow> (s2, notFound w)
        | Some user \<Rightarrow>
            (let s' = AList.delete (matches ! 1) s2 in
             case Marshal_user J user of
               None \<Rightarrow> (s', internalServerError w)
             | Some jsonBytes \<Rightarrow> (s', Write jsonBytes (WriteHeader 200 w))))"

definition Delete :: "json \<Rightarrow> store \<Rightarrow> ResponseWriter \<Rightarrow> Request \<Rightarrow> store \<times> ResponseWriter" where
  "Delete J s w r =
     (let matches = getUserRe_FindStringSubmatch (Path r) in
      if length matches < 2 then (s, notFound w)
      else
        case map_of s (matches ! 1) of
          None \<Rightarrow> (s, notFound w)
        | Some user \<Rightarrow>
            (let s' = AList.delete (matches ! 1) s in
             case Marshal_user J user of
               None \<Rightarrow> (s', internalServerError w)
             | Some jsonBytes \<Rightarrow> (s', Write jsonBytes (WriteHeader 200 w))))"

definition ServeHTTP :: "json \<Rightarrow> store \<Rightarrow> ResponseWriter \<Rightarrow> Request \<Rightarrow> store \<times> ResponseWriter" where
  "ServeHTTP J s w0 r =
     (let w = Header_Set ''content-type'' ''application/json'' w0 in
      if Method r = ''GET'' \<and> listUsersRe_MatchString (Path r) then List J s w r
      else if Method r = ''GET'' \<and> getUserRe_MatchString (Path r) then Get J s w r
      else if Method r = ''POST'' \<and> createUserRe_MatchString (Path r) then Create J s w r
      else if Method r = ''DELETE'' \<and> deleteUserRe_MatchString (Path r) then Delete J s w r
      else (s, notFound w))"

text \<open>The store that \<^verbatim>\<open>main\<close> builds.\<close>

definition main_store :: store where
  "main_store = [(''1'', \<lparr>ID = ''1'', Name = ''Charles''\<rparr>)]"

subsection \<open>Runs\<close>

text \<open>
  The stores the program can be in: the one of \<^verbatim>\<open>main\<close>, and what \<open>Create\<close> and
  \<open>Delete\<close> make of such a store, on any request and with any behaviour of the JSON
  package.
\<close>

inductive reachable :: "store \<Rightarrow> bool" where
  start: "reachable main_store"
| create: "reachable s \<Longrightarrow> reachable (fst (Create J s w r))"
| delete: "reachable s \<Longrightarrow> reachable (fst (Delete J s w r))"

text \<open>A sequence of \<open>Create\<close> calls, each on the store the one before left.\<close>

fun Creates :: "json \<Rightarrow> store \<Rightarrow> ResponseWriter \<Rightarrow> Request list \<Rightarrow> store" where
  "Creates J s w [] = s"
| "Creates J s w (r # rs) = Creates J (fst (Create J s w r)) w rs"

subsection \<open>A JSON package for the examples\<close>

text \<open>
  The examples need the parameters at concrete values. \<open>example_json\<close> agrees with
  \<^verbatim>\<open>encoding/json\<close> on what the examples give it: it decodes the three bodies listed,
  reports an error on every other body, and marshals records whose strings need no
  escaping.
\<close>

definition example_Decode :: "string \<Rightarrow> user option" where
  \<open>example_Decode b =
     (if b = ''{"id":"2","name":"Ada"}'' then Some \<lparr>ID = ''2'', Name = ''Ada''\<rparr>
      else if b = ''{"id":"1","name":"Carl"}'' then Some \<lparr>ID = ''1'', Name = ''Carl''\<rparr>
      else if b = ''{}'' then Some \<lparr>ID = [], Name = []\<rparr>
      else None)\<close>

definition example_object :: "user \<Rightarrow> string" where
  \<open>example_object u = ''{"id":"'' @ ID u @ ''","name":"'' @ Name u @ ''"}''\<close>

fun example_join :: "string list \<Rightarrow> string" where
  "example_join [] = []"
| "example_join [x] = x"
| "example_join (x # y # ys) = x @ '','' @ example_join (y # ys)"

definition example_Marshal_user :: "user \<Rightarrow> string option" where
  "example_Marshal_user u = Some (example_object u)"

definition example_Marshal_users :: "user list \<Rightarrow> string option" where
  "example_Marshal_users us = Some (''['' @ example_join (map example_object us) @ '']'')"

definition example_json :: json where
  "example_json =
     \<lparr>Decode = example_Decode,
      Marshal_user = example_Marshal_user,
      Marshal_users = example_Marshal_users\<rparr>"

subsection \<open>The invariant of the store\<close>

definition key_is_ID :: "store \<Rightarrow> bool" where
  "key_is_ID s = list_all (\<lambda>(k, u). k = ID u) s"

section \<open>Properties\<close>

subsection \<open>Path patterns\<close>

lemma after_prefix_iff: "after_prefix p s = Some rest \<longleftrightarrow> s = p @ rest"
  by (induction p s rule: after_prefix.induct) auto

lemma after_prefix_append [simp]: "after_prefix p (p @ rest) = Some rest"
  by (simp add: after_prefix_iff)

lemma FindStringSubmatch_digits:
  "list_all digit i \<Longrightarrow> getUserRe_FindStringSubmatch (''/users/'' @ i) = [''/users/'' @ i, i]"
  by (simp add: getUserRe_FindStringSubmatch_def)

lemma FindStringSubmatch_Nil_iff:
  "getUserRe_FindStringSubmatch p = [] \<longleftrightarrow> \<not> (\<exists>i. p = ''/users/'' @ i \<and> list_all digit i)"
proof
  assume none: "getUserRe_FindStringSubmatch p = []"
  show "\<not> (\<exists>i. p = ''/users/'' @ i \<and> list_all digit i)"
  proof
    assume "\<exists>i. p = ''/users/'' @ i \<and> list_all digit i"
    then obtain i where i: "p = ''/users/'' @ i" "list_all digit i" by blast
    have "getUserRe_FindStringSubmatch p = [p, i]"
      using i(2) unfolding i(1) by (rule FindStringSubmatch_digits)
    with none show False by simp
  qed
next
  assume no: "\<not> (\<exists>i. p = ''/users/'' @ i \<and> list_all digit i)"
  show "getUserRe_FindStringSubmatch p = []"
  proof (cases "after_prefix ''/users/'' p")
    case None
    then show ?thesis
      by (simp add: getUserRe_FindStringSubmatch_def del: after_prefix.simps)
  next
    case (Some rest)
    then have "p = ''/users/'' @ rest" by (simp only: after_prefix_iff)
    with no have "\<not> list_all digit rest" by blast
    with Some show ?thesis
      by (simp add: getUserRe_FindStringSubmatch_def del: after_prefix.simps)
  qed
qed

subsection \<open>The response writer\<close>

lemma Status_simps [simp]:
  "Status (notFound w) = 404" "Status (badRequest w) = 400"
  "Status (internalServerError w) = 500" "Status (Write b (WriteHeader c w)) = c"
  by (simp_all add: notFound_def badRequest_def internalServerError_def Write_def WriteHeader_def)

lemma Header_simps [simp]:
  "Header (notFound w) = Header w" "Header (badRequest w) = Header w"
  "Header (internalServerError w) = Header w" "Header (Write b (WriteHeader c w)) = Header w"
  by (simp_all add: notFound_def badRequest_def internalServerError_def Write_def WriteHeader_def)

lemma Bytes_Write [simp]: "Bytes (Write b (WriteHeader c w)) = Bytes w @ b"
  by (simp add: Write_def WriteHeader_def)

subsection \<open>What the handlers do to the store\<close>

lemma range_append_eq: "range_append users s = users @ map snd s"
  by (induction users s rule: range_append.induct) auto

lemma fst_Create: "fst (Create J s w r) = (case Decode J (Body r) of None \<Rightarrow> s | Some u \<Rightarrow> AList.update (ID u) u s)"
  by (simp add: Create_def Let_def split: option.splits)

lemma fst_Delete_cases: "fst (Delete J s w r) = s \<or> (\<exists>k. fst (Delete J s w r) = AList.delete k s)"
  by (auto simp: Delete_def Let_def split: option.splits)

lemma length_update_present: "map_of s k = Some old \<Longrightarrow> length (AList.update k v s) = length s"
  by (induction s) (auto split: if_splits)

lemma Delete_sections_same: "Delete_sections J s s w r = Delete J s w r"
  by (simp add: Delete_sections_def Delete_def)

lemma key_is_ID_update: "key_is_ID s \<Longrightarrow> key_is_ID (AList.update (ID u) u s)"
  by (induction s) (auto simp: key_is_ID_def)

lemma key_is_ID_delete: "key_is_ID s \<Longrightarrow> key_is_ID (AList.delete k s)"
  by (induction s) (auto simp: key_is_ID_def)

lemma key_is_ID_map_of: "key_is_ID s \<Longrightarrow> map_of s k = Some u \<Longrightarrow> ID u = k"
  by (induction s) (auto simp: key_is_ID_def split: if_splits)

lemma reachable_key_is_ID: "reachable s \<Longrightarrow> key_is_ID s"
proof (induction rule: reachable.induct)
  case start
  show ?case by (simp add: key_is_ID_def main_store_def)
next
  case (create s J w r)
  then show ?case by (simp add: fst_Create key_is_ID_update split: option.splits)
next
  case (delete s J w r)
  then show ?case using fst_Delete_cases [of J s w r] by (auto simp: key_is_ID_delete)
qed

lemma reachable_distinct: "reachable s \<Longrightarrow> distinct (map fst s)"
proof (induction rule: reachable.induct)
  case start
  show ?case by (simp add: main_store_def)
next
  case (create s J w r)
  then show ?case by (simp add: fst_Create distinct_update split: option.splits)
next
  case (delete s J w r)
  then show ?case using fst_Delete_cases [of J s w r] by (auto simp: distinct_delete)
qed

lemma fst_List: "fst (List J s w r) = s"
  by (simp add: List_def split: option.splits)

lemma fst_Get: "fst (Get J s w r) = s"
  by (simp add: Get_def Let_def split: option.splits)

lemma reachable_ServeHTTP: "reachable s \<Longrightarrow> reachable (fst (ServeHTTP J s w r))"
  by (simp add: ServeHTTP_def Let_def fst_List fst_Get reachable.create reachable.delete)

lemma Creates_append: "Creates J s w (xs @ ys) = Creates J (Creates J s w xs) w ys"
  by (induction xs arbitrary: s) auto

lemma Creates_other_ids:
  "\<forall>r \<in> set rs. \<forall>u'. Decode J (Body r) = Some u' \<longrightarrow> ID u' \<noteq> k \<Longrightarrow>
   map_of (Creates J s w rs) k = map_of s k"
  by (induction rs arbitrary: s) (auto simp: fst_Create update_conv' split: option.splits)

lemmas example_defs =
  example_json_def example_Decode_def example_Marshal_user_def example_Marshal_users_def
  example_object_def main_store_def new_writer_def

lemmas handler_defs =
  ServeHTTP_def List_def Get_def Create_def Delete_def Delete_sections_def Let_def
  listUsersRe_MatchString_def createUserRe_MatchString_def getUserRe_MatchString_def
  deleteUserRe_MatchString_def getUserRe_FindStringSubmatch_def digit_def
  notFound_def badRequest_def internalServerError_def Header_Set_def WriteHeader_def Write_def

subsection \<open>Supporting facts on the path contract\<close>

text \<open>
  A suffix after \<^verbatim>\<open>/users/\<close> that is not made of digits gives no match, and both
  handlers answer 404 without touching the store.
\<close>

lemma FindStringSubmatch_not_digits:
  assumes "\<not> list_all digit x"
  shows "getUserRe_FindStringSubmatch (''/users/'' @ x) = []"
proof -
  have "\<not> (\<exists>i. ''/users/'' @ x = ''/users/'' @ i \<and> list_all digit i)"
    using assms by (simp only: same_append_eq) blast
  with FindStringSubmatch_Nil_iff [of "''/users/'' @ x"] show ?thesis by blast
qed

lemma Get_not_digits:
  assumes "Path r = ''/users/'' @ x" and "\<not> list_all digit x"
  shows "Get J s w r = (s, notFound w)"
proof -
  have "getUserRe_FindStringSubmatch (Path r) = []"
    using assms(2) unfolding assms(1) by (rule FindStringSubmatch_not_digits)
  then show ?thesis by (simp add: Get_def)
qed

lemma Delete_not_digits:
  assumes "Path r = ''/users/'' @ x" and "\<not> list_all digit x"
  shows "Delete J s w r = (s, notFound w)"
proof -
  have "getUserRe_FindStringSubmatch (Path r) = []"
    using assms(2) unfolding assms(1) by (rule FindStringSubmatch_not_digits)
  then show ?thesis by (simp add: Delete_def)
qed

text \<open>The bare paths go to \<open>List\<close> on GET and to \<open>Create\<close> on POST.\<close>

lemma ServeHTTP_bare_path:
  assumes "Path r = ''/users'' \<or> Path r = ''/users/''"
  shows "Method r = ''GET'' \<Longrightarrow>
           ServeHTTP J s w r = List J s (Header_Set ''content-type'' ''application/json'' w) r"
    and "Method r = ''POST'' \<Longrightarrow>
           ServeHTTP J s w r = Create J s (Header_Set ''content-type'' ''application/json'' w) r"
  using assms
  by (auto simp: ServeHTTP_def listUsersRe_MatchString_def createUserRe_MatchString_def)

text \<open>
  When \<open>ServeHTTP\<close> hands a GET to \<open>Get\<close>, the path is not one of \<open>List\<close>, so the
  identifier it carries has a digit: no GET reads the key \<open>[]\<close>.
\<close>

lemma GET_identifier_not_empty:
  assumes "\<not> listUsersRe_MatchString (Path r)"
    and "getUserRe_FindStringSubmatch (Path r) = [p, i]"
  shows "i \<noteq> []"
proof
  assume "i = []"
  with assms(2) have "after_prefix ''/users/'' (Path r) = Some []"
    by (auto simp: getUserRe_FindStringSubmatch_def simp del: after_prefix.simps
        split: option.splits if_splits)
  then have "Path r = ''/users/''" by (simp only: after_prefix_iff append_Nil2)
  with assms(1) show False by (simp add: listUsersRe_MatchString_def)
qed

text \<open>A record decoded without identifier is stored under \<open>[]\<close> and is listed.\<close>

lemma Create_without_id:
  assumes "Decode J (Body r) = Some u" and "ID u = []"
  shows "map_of (fst (Create J s w r)) [] = Some u"
    and "u \<in> set (range_append [] (fst (Create J s w r)))"
    and "Marshal_user J u = Some b \<Longrightarrow> snd (Create J s w r) = Write b (WriteHeader 200 w)"
proof -
  show m: "map_of (fst (Create J s w r)) [] = Some u"
    using assms by (simp add: fst_Create update_conv')
  from map_of_SomeD [OF m] show "u \<in> set (range_append [] (fst (Create J s w r)))"
    by (force simp: range_append_eq)
  show "Marshal_user J u = Some b \<Longrightarrow> snd (Create J s w r) = Write b (WriteHeader 200 w)"
    using assms by (simp add: Create_def)
qed

section \<open>The claims\<close>

subsection \<open>C1\<close>

text \<open>
  C1. In every store the program can reach, starting from the store of \<^verbatim>\<open>main\<close> and
  applying \<open>Create\<close> and \<open>Delete\<close> any number of times, each key is the identifier of
  the record stored under it.
\<close>

theorem store_key_is_identifier:
  "reachable s \<Longrightarrow> map_of s k = Some u \<Longrightarrow> ID u = k"
  by (rule key_is_ID_map_of [OF reachable_key_is_ID])

theorem store_key_is_identifier_witness:
  \<open>reachable (fst (Create example_json main_store new_writer
       \<lparr>Method = ''POST'', Path = ''/users'', Body = ''{"id":"2","name":"Ada"}''\<rparr>)) \<and>
   map_of (fst (Create example_json main_store new_writer
       \<lparr>Method = ''POST'', Path = ''/users'', Body = ''{"id":"2","name":"Ada"}''\<rparr>)) ''2''
     = Some \<lparr>ID = ''2'', Name = ''Ada''\<rparr> \<and>
   ID \<lparr>ID = ''2'', Name = ''Ada''\<rparr> = ''2''\<close>
proof -
  let ?r = \<open>\<lparr>Method = ''POST'', Path = ''/users'', Body = ''{"id":"2","name":"Ada"}''\<rparr>\<close>
  have r: "reachable (fst (Create example_json main_store new_writer ?r))"
    by (rule reachable.create [OF reachable.start])
  have m: "map_of (fst (Create example_json main_store new_writer ?r)) ''2''
      = Some \<lparr>ID = ''2'', Name = ''Ada''\<rparr>"
    by (simp add: handler_defs example_defs)
  from store_key_is_identifier [OF r m] r m show ?thesis by simp
qed

subsection \<open>C2\<close>

text \<open>
  C2. Take any store and any sequence of \<open>Create\<close> calls. If \<open>r\<close> is the last call of
  the sequence that stores a record with the identifier of \<open>u\<close>, and \<open>u\<close> is the record
  it stores, then the lookup of \<open>Get\<close> finds \<open>u\<close> under that identifier afterwards; and
  when the identifier is one a path can carry (digits), \<open>Get\<close> on that path answers 200
  with \<open>u\<close> marshalled.
\<close>

theorem get_after_upserts:
  assumes "Decode J (Body r) = Some u"
    and "\<forall>r' \<in> set rs2. \<forall>u'. Decode J (Body r') = Some u' \<longrightarrow> ID u' \<noteq> ID u"
  shows "map_of (Creates J s w (rs1 @ r # rs2)) (ID u) = Some u \<and>
    (list_all digit (ID u) \<and> Path g = ''/users/'' @ ID u \<and> Marshal_user J u = Some b \<longrightarrow>
       snd (Get J (Creates J s w (rs1 @ r # rs2)) v g) = Write b (WriteHeader 200 v))"
proof -
  have "map_of (Creates J s w (rs1 @ r # rs2)) (ID u)
      = map_of (fst (Create J (Creates J s w rs1) w r)) (ID u)"
    using assms(2) by (simp add: Creates_append Creates_other_ids)
  also have "\<dots> = Some u"
    using assms(1) by (simp add: fst_Create update_conv')
  finally have m: "map_of (Creates J s w (rs1 @ r # rs2)) (ID u) = Some u" .
  have "snd (Get J (Creates J s w (rs1 @ r # rs2)) v g) = Write b (WriteHeader 200 v)"
    if "list_all digit (ID u)" "Path g = ''/users/'' @ ID u" "Marshal_user J u = Some b"
  proof -
    have "getUserRe_FindStringSubmatch (Path g) = [Path g, ID u]"
      using that(1) unfolding that(2) by (rule FindStringSubmatch_digits)
    then show ?thesis
      using m that(3) by (simp add: Get_def)
  qed
  with m show ?thesis by blast
qed

theorem get_after_upserts_witness:
  \<open>Decode example_json (Body \<lparr>Method = ''POST'', Path = ''/users'',
       Body = ''{"id":"1","name":"Carl"}''\<rparr>) = Some \<lparr>ID = ''1'', Name = ''Carl''\<rparr> \<and>
   Decode example_json (Body \<lparr>Method = ''POST'', Path = ''/users'',
       Body = ''{"id":"2","name":"Ada"}''\<rparr>) = Some \<lparr>ID = ''2'', Name = ''Ada''\<rparr> \<and>
   map_of (Creates example_json main_store new_writer
      [\<lparr>Method = ''POST'', Path = ''/users'', Body = ''{"id":"2","name":"Ada"}''\<rparr>,
       \<lparr>Method = ''POST'', Path = ''/users'', Body = ''{"id":"1","name":"Carl"}''\<rparr>,
       \<lparr>Method = ''POST'', Path = ''/users'', Body = ''{"id":"2","name":"Ada"}''\<rparr>]) ''1''
     = Some \<lparr>ID = ''1'', Name = ''Carl''\<rparr> \<and>
   snd (Get example_json (Creates example_json main_store new_writer
      [\<lparr>Method = ''POST'', Path = ''/users'', Body = ''{"id":"2","name":"Ada"}''\<rparr>,
       \<lparr>Method = ''POST'', Path = ''/users'', Body = ''{"id":"1","name":"Carl"}''\<rparr>,
       \<lparr>Method = ''POST'', Path = ''/users'', Body = ''{"id":"2","name":"Ada"}''\<rparr>])
      new_writer \<lparr>Method = ''GET'', Path = ''/users/1'', Body = []\<rparr>)
     = \<lparr>Header = [], Status = 200, Bytes = ''{"id":"1","name":"Carl"}''\<rparr>\<close>
proof -
  let ?ada = \<open>\<lparr>Method = ''POST'', Path = ''/users'', Body = ''{"id":"2","name":"Ada"}''\<rparr>\<close>
  let ?carl = \<open>\<lparr>Method = ''POST'', Path = ''/users'', Body = ''{"id":"1","name":"Carl"}''\<rparr>\<close>
  let ?u = "\<lparr>ID = ''1'', Name = ''Carl''\<rparr>"
  let ?g = "\<lparr>Method = ''GET'', Path = ''/users/1'', Body = []\<rparr>"
  have d: "Decode example_json (Body ?carl) = Some ?u"
    by (simp add: example_defs)
  have o: "\<forall>r' \<in> set [?ada]. \<forall>u'. Decode example_json (Body r') = Some u' \<longrightarrow> ID u' \<noteq> ID ?u"
    by (auto simp: example_defs)
  have g: "list_all digit (ID ?u) \<and> Path ?g = ''/users/'' @ ID ?u \<and>
      Marshal_user example_json ?u = Some (example_object ?u)"
    by (simp add: example_defs digit_def)
  from get_after_upserts [OF d o, of main_store new_writer "[?ada]" ?g "example_object ?u" new_writer] g
  have "map_of (Creates example_json main_store new_writer ([?ada] @ ?carl # [?ada])) (ID ?u) = Some ?u \<and>
      snd (Get example_json (Creates example_json main_store new_writer ([?ada] @ ?carl # [?ada]))
        new_writer ?g) = Write (example_object ?u) (WriteHeader 200 new_writer)"
    by blast
  moreover have "Decode example_json (Body ?ada) = Some \<lparr>ID = ''2'', Name = ''Ada''\<rparr>"
    by (simp add: example_defs)
  ultimately show ?thesis
    using d by (simp add: example_object_def Write_def WriteHeader_def new_writer_def)
qed

subsection \<open>C3\<close>

text \<open>
  C3. For every store and every request, \<open>Get\<close> on the store that \<open>Delete\<close> leaves,
  for the same path, answers 404 not found and leaves the store as it is, whether or
  not the store held the identifier before.
\<close>

theorem get_after_delete:
  "Get J (fst (Delete J s w r)) v r = (fst (Delete J s w r), notFound v)"
  by (auto simp: Get_def Delete_def Let_def delete_conv' split: option.splits)

theorem get_after_delete_witness:
  \<open>fst (Delete example_json main_store new_writer
      \<lparr>Method = ''DELETE'', Path = ''/users/1'', Body = []\<rparr>) = [] \<and>
   Get example_json [] new_writer \<lparr>Method = ''DELETE'', Path = ''/users/1'', Body = []\<rparr>
     = ([], \<lparr>Header = [], Status = 404, Bytes = ''{"error": "not found"}''\<rparr>)\<close>
proof -
  let ?r = "\<lparr>Method = ''DELETE'', Path = ''/users/1'', Body = []\<rparr>"
  have d: "fst (Delete example_json main_store new_writer ?r) = []"
    by (simp add: handler_defs example_defs)
  from get_after_delete [of example_json main_store new_writer ?r new_writer] d
  show ?thesis
    by (simp add: notFound_def Write_def WriteHeader_def new_writer_def)
qed

subsection \<open>C4\<close>

text \<open>
  C4. When the store holds a record under the identifier of \<open>u\<close> and the body of a
  \<open>Create\<close> decodes to \<open>u\<close>, the store holds \<open>u\<close> under that identifier afterwards, the
  request is not rejected (the status is not 400, and it is 200 with \<open>u\<close> marshalled
  when the marshalling succeeds), and \<open>List\<close> collects as many records as before.
\<close>

theorem upsert_existing_replaces:
  assumes "map_of s (ID u) = Some old" and "Decode J (Body r) = Some u"
  shows "map_of (fst (Create J s w r)) (ID u) = Some u \<and>
    Status (snd (Create J s w r)) \<noteq> 400 \<and>
    (Marshal_user J u = Some b \<longrightarrow> snd (Create J s w r) = Write b (WriteHeader 200 w)) \<and>
    length (range_append [] (fst (Create J s w r))) = length (range_append [] s)"
  using assms
  by (simp add: Create_def Let_def update_conv' range_append_eq length_update_present
      split: option.splits)

theorem upsert_existing_replaces_witness:
  \<open>map_of main_store ''1'' = Some \<lparr>ID = ''1'', Name = ''Charles''\<rparr> \<and>
   Decode example_json ''{"id":"1","name":"Carl"}'' = Some \<lparr>ID = ''1'', Name = ''Carl''\<rparr> \<and>
   Marshal_user example_json \<lparr>ID = ''1'', Name = ''Carl''\<rparr> = Some ''{"id":"1","name":"Carl"}'' \<and>
   Create example_json main_store new_writer
      \<lparr>Method = ''POST'', Path = ''/users'', Body = ''{"id":"1","name":"Carl"}''\<rparr>
     = ([(''1'', \<lparr>ID = ''1'', Name = ''Carl''\<rparr>)],
        \<lparr>Header = [], Status = 200, Bytes = ''{"id":"1","name":"Carl"}''\<rparr>) \<and>
   length (range_append [] [(''1'', \<lparr>ID = ''1'', Name = ''Carl''\<rparr>)])
     = length (range_append [] main_store)\<close>
proof -
  let ?r = \<open>\<lparr>Method = ''POST'', Path = ''/users'', Body = ''{"id":"1","name":"Carl"}''\<rparr>\<close>
  let ?u = "\<lparr>ID = ''1'', Name = ''Carl''\<rparr>"
  have p: "map_of main_store (ID ?u) = Some \<lparr>ID = ''1'', Name = ''Charles''\<rparr>"
    by (simp add: main_store_def)
  have d: "Decode example_json (Body ?r) = Some ?u"
    by (simp add: example_defs)
  have c: "Create example_json main_store new_writer ?r
      = ([(''1'', ?u)], \<lparr>Header = [], Status = 200, Bytes = example_object ?u\<rparr>)"
    by (simp add: handler_defs example_defs)
  from upsert_existing_replaces [OF p d, of new_writer "example_object ?u"] p d c
  show ?thesis
    by (simp add: example_defs)
qed

subsection \<open>C5\<close>

text \<open>
  C5. The claim has the identifier that \<open>Get\<close> and \<open>Delete\<close> extract be a non-empty
  run of digits, and a path with nothing after \<^verbatim>\<open>/users/\<close> give no identifier and a
  404. The pattern accepts \<^verbatim>\<open>/users/\<close> itself, and \<^verbatim>\<open>FindStringSubmatch\<close> then
  returns two strings, the second empty, so the guard \<^verbatim>\<open>len(matches) < 2\<close> lets it
  through: \<open>Delete\<close> looks up the empty identifier, and when the store holds a record
  under it (see C10) the DELETE on \<^verbatim>\<open>/users/\<close> removes that record and answers 200.
  The rest of the claim holds: \<open>FindStringSubmatch_digits\<close>, \<open>Get_not_digits\<close>,
  \<open>Delete_not_digits\<close>, \<open>ServeHTTP_bare_path\<close>.
\<close>

theorem delete_extracts_empty_identifier:
  \<open>getUserRe_FindStringSubmatch ''/users/'' = [''/users/'', []] \<and>
   ServeHTTP example_json [([], \<lparr>ID = [], Name = ''X''\<rparr>)] new_writer
      \<lparr>Method = ''DELETE'', Path = ''/users/'', Body = []\<rparr>
     = ([], \<lparr>Header = [(''content-type'', ''application/json'')], Status = 200,
             Bytes = ''{"id":"","name":"X"}''\<rparr>)\<close>
  by (simp add: handler_defs example_defs)

subsection \<open>C6\<close>

text \<open>
  C6. When the body does not decode, \<open>Create\<close> answers 400 with the bad-request body
  and returns the store it was given. When the body decodes to \<open>u\<close>, \<open>Create\<close>
  writes \<open>u\<close> under its identifier, every other key as before, and answers 200 with
  \<open>u\<close> marshalled (\<^verbatim>\<open>json.Marshal\<close> returning the bytes \<open>b\<close>). The status is never
  201, and the response is the same whatever the store held, so an insert and a
  replacement are answered alike.
\<close>

theorem create_bad_request_or_upsert:
  \<open>(Decode J (Body r) = None \<longrightarrow>
      Create J s w r = (s, badRequest w) \<and> Status (badRequest w) = 400 \<and>
      Bytes (badRequest w) = Bytes w @ ''{"error": "bad request"}'') \<and>
   (Decode J (Body r) = Some u \<longrightarrow>
      fst (Create J s w r) = AList.update (ID u) u s \<and>
      map_of (AList.update (ID u) u s) = (map_of s)(ID u \<mapsto> u) \<and>
      (Marshal_user J u = Some b \<longrightarrow> snd (Create J s w r) = Write b (WriteHeader 200 w))) \<and>
   Status (snd (Create J s w r)) \<noteq> 201 \<and>
   snd (Create J s w r) = snd (Create J t w r)\<close>
  by (auto simp: Create_def Let_def update_conv' badRequest_def Write_def WriteHeader_def
      internalServerError_def split: option.splits)

theorem create_bad_request_or_upsert_witness:
  \<open>Decode example_json ''not-json'' = None \<and>
   Create example_json main_store new_writer
      \<lparr>Method = ''POST'', Path = ''/users'', Body = ''not-json''\<rparr>
     = (main_store, \<lparr>Header = [], Status = 400, Bytes = ''{"error": "bad request"}''\<rparr>) \<and>
   Decode example_json ''{"id":"2","name":"Ada"}'' = Some \<lparr>ID = ''2'', Name = ''Ada''\<rparr> \<and>
   Marshal_user example_json \<lparr>ID = ''2'', Name = ''Ada''\<rparr> = Some ''{"id":"2","name":"Ada"}'' \<and>
   Create example_json main_store new_writer
      \<lparr>Method = ''POST'', Path = ''/users'', Body = ''{"id":"2","name":"Ada"}''\<rparr>
     = ([(''1'', \<lparr>ID = ''1'', Name = ''Charles''\<rparr>), (''2'', \<lparr>ID = ''2'', Name = ''Ada''\<rparr>)],
        \<lparr>Header = [], Status = 200, Bytes = ''{"id":"2","name":"Ada"}''\<rparr>)\<close>
proof -
  let ?bad = "\<lparr>Method = ''POST'', Path = ''/users'', Body = ''not-json''\<rparr>"
  let ?ada = \<open>\<lparr>Method = ''POST'', Path = ''/users'', Body = ''{"id":"2","name":"Ada"}''\<rparr>\<close>
  let ?u = "\<lparr>ID = ''2'', Name = ''Ada''\<rparr>"
  have n: "Decode example_json (Body ?bad) = None"
    by (simp add: example_defs)
  have d: "Decode example_json (Body ?ada) = Some ?u \<and>
      Marshal_user example_json ?u = Some (example_object ?u)"
    by (simp add: example_defs)
  from n create_bad_request_or_upsert [where J = example_json and r = ?bad and s = main_store
      and w = new_writer]
  have 1: "Create example_json main_store new_writer ?bad = (main_store, badRequest new_writer)"
    by (simp only: simp_thms)
  from d create_bad_request_or_upsert [where J = example_json and r = ?ada and s = main_store
      and w = new_writer and u = ?u and b = "example_object ?u"]
  have 2: "fst (Create example_json main_store new_writer ?ada) = AList.update (ID ?u) ?u main_store \<and>
      snd (Create example_json main_store new_writer ?ada)
        = Write (example_object ?u) (WriteHeader 200 new_writer)"
    by (simp only: simp_thms)
  from 1 2 n d show ?thesis
    by (simp add: prod_eq_iff example_object_def main_store_def new_writer_def badRequest_def
        Write_def WriteHeader_def)
qed

subsection \<open>C7\<close>

text \<open>
  What \<open>Delete\<close> does, case by case. On a path that the identifier pattern does not
  match it answers 404 and returns the store it was given. On a path \<^verbatim>\<open>/users/\<close>
  followed by the digits \<open>i\<close> (the pattern asks for no digit, so \<open>i\<close> may be empty):
  when the store holds nothing under \<open>i\<close>, the same; when it holds \<open>u\<close> under \<open>i\<close>,
  the store afterwards is the old one without the key \<open>i\<close>, every other key as
  before, and the answer is 200 with \<open>u\<close> marshalled (\<^verbatim>\<open>json.Marshal\<close> returning
  the bytes \<open>b\<close>). When the record found at the lookup is gone from the store by the
  time of the removal, the removal changes nothing and the answer is still 200 with the
  record as it was found.
\<close>

lemma Delete_cases:
  "(getUserRe_FindStringSubmatch (Path r) = [] \<longrightarrow> Delete J s w r = (s, notFound w)) \<and>
   (Path r = ''/users/'' @ i \<and> list_all digit i \<longrightarrow>
      (map_of s i = None \<longrightarrow> Delete J s w r = (s, notFound w)) \<and>
      (map_of s i = Some u \<longrightarrow>
         fst (Delete J s w r) = AList.delete i s \<and>
         map_of (AList.delete i s) = (map_of s)(i := None) \<and>
         (Marshal_user J u = Some b \<longrightarrow> snd (Delete J s w r) = Write b (WriteHeader 200 w))) \<and>
      (map_of s1 i = Some u \<and> map_of s2 i = None \<and> Marshal_user J u = Some b \<longrightarrow>
         Delete_sections J s1 s2 w r = (s2, Write b (WriteHeader 200 w)))) \<and>
   Status (notFound w) = 404"
proof -
  have a: "getUserRe_FindStringSubmatch (Path r) = [] \<Longrightarrow> Delete J s w r = (s, notFound w)"
    by (simp add: Delete_def)
  have b: "Delete J s w r = (s, notFound w)"
    if "Path r = ''/users/'' @ i" "list_all digit i" "map_of s i = None"
  proof -
    have "getUserRe_FindStringSubmatch (Path r) = [Path r, i]"
      using that(2) unfolding that(1) by (rule FindStringSubmatch_digits)
    then show ?thesis using that(3) by (simp add: Delete_def)
  qed
  have c: "fst (Delete J s w r) = AList.delete i s \<and>
      (Marshal_user J u = Some b \<longrightarrow> snd (Delete J s w r) = Write b (WriteHeader 200 w))"
    if "Path r = ''/users/'' @ i" "list_all digit i" "map_of s i = Some u"
  proof -
    have "getUserRe_FindStringSubmatch (Path r) = [Path r, i]"
      using that(2) unfolding that(1) by (rule FindStringSubmatch_digits)
    then show ?thesis using that(3) by (simp add: Delete_def Let_def split: option.splits)
  qed
  have d: "Delete_sections J s1 s2 w r = (s2, Write b (WriteHeader 200 w))"
    if "Path r = ''/users/'' @ i" "list_all digit i" "map_of s1 i = Some u" "map_of s2 i = None"
      "Marshal_user J u = Some b"
  proof -
    have "getUserRe_FindStringSubmatch (Path r) = [Path r, i]"
      using that(2) unfolding that(1) by (rule FindStringSubmatch_digits)
    moreover have "AList.delete i s2 = s2"
      using that(4) by (simp add: delete_id map_of_eq_None_iff)
    ultimately show ?thesis using that(3,5) by (simp add: Delete_sections_def)
  qed
  have e: "map_of (AList.delete i s) = (map_of s)(i := None)"
    by (rule delete_conv')
  from a b c d e show ?thesis by (simp only: Status_simps) blast
qed

text \<open>
  C7. The claim has \<open>Delete\<close> answer 404 and leave the store unchanged when the
  identifier is absent from the path. The path \<^verbatim>\<open>/users/\<close> carries no identifier, yet
  \<^verbatim>\<open>FindStringSubmatch\<close> returns two strings on it, so the guard
  \<^verbatim>\<open>len(matches) < 2\<close> does not answer 404: \<open>Delete\<close> looks up the empty key, and on
  the store that the POST of \<^verbatim>\<open>{}\<close> leaves it removes the record stored there and
  answers 200. The store is changed and the status is not 404. The other parts of the
  claim hold (\<open>Delete_cases\<close>).
\<close>

theorem delete_without_id_in_path_removes:
  \<open>length (getUserRe_FindStringSubmatch ''/users/'') = 2 \<and>
   fst (Create example_json main_store new_writer
      \<lparr>Method = ''POST'', Path = ''/users/'', Body = ''{}''\<rparr>)
     = [(''1'', \<lparr>ID = ''1'', Name = ''Charles''\<rparr>), ([], \<lparr>ID = [], Name = []\<rparr>)] \<and>
   Delete example_json
      [(''1'', \<lparr>ID = ''1'', Name = ''Charles''\<rparr>), ([], \<lparr>ID = [], Name = []\<rparr>)] new_writer
      \<lparr>Method = ''DELETE'', Path = ''/users/'', Body = []\<rparr>
     = ([(''1'', \<lparr>ID = ''1'', Name = ''Charles''\<rparr>)],
        \<lparr>Header = [], Status = 200, Bytes = ''{"id":"","name":""}''\<rparr>) \<and>
   notFound new_writer = \<lparr>Header = [], Status = 404, Bytes = ''{"error": "not found"}''\<rparr>\<close>
  by (simp add: handler_defs example_defs)

subsection \<open>C8\<close>



subsection \<open>C10\<close>

text \<open>
  C10. A body that decodes to a record without identifier is stored under the empty
  key, answered 200 and listed (\<open>Create_without_id\<close>), and no GET reads that key
  (\<open>GET_identifier_not_empty\<close>). The claim adds that no DELETE removes the record. The
  run below starts from the store of \<^verbatim>\<open>main\<close>: the POST of \<^verbatim>\<open>{}\<close> stores the record
  under the empty key, and the DELETE on \<^verbatim>\<open>/users/\<close> answers 200 and leaves the store
  of \<^verbatim>\<open>main\<close>, the record removed.
\<close>

theorem delete_removes_record_without_id:
  \<open>ServeHTTP example_json main_store new_writer
      \<lparr>Method = ''POST'', Path = ''/users'', Body = ''{}''\<rparr>
     = (main_store @ [([], \<lparr>ID = [], Name = []\<rparr>)],
        \<lparr>Header = [(''content-type'', ''application/json'')], Status = 200,
         Bytes = ''{"id":"","name":""}''\<rparr>) \<and>
   ServeHTTP example_json (main_store @ [([], \<lparr>ID = [], Name = []\<rparr>)]) new_writer
      \<lparr>Method = ''DELETE'', Path = ''/users/'', Body = []\<rparr>
     = (main_store,
        \<lparr>Header = [(''content-type'', ''application/json'')], Status = 200,
         Bytes = ''{"id":"","name":""}''\<rparr>)\<close>
  by (simp add: handler_defs example_defs)

end
